theory Spec2Isabelle
  imports Main "HOL-Library.Multiset"
begin

section \<open>Errors\<close>

text \<open>
  Every exception the views and the form can raise is a value. \<open>ValidationError\<close> carries
  the \<open>code\<close> argument of \<open>django.core.exceptions.ValidationError\<close>.
\<close>

datatype error =
    Http404
  | DoesNotExist
  | MultipleObjectsReturned
  | AttributeError
  | ValueError
  | OverflowError
  | InvalidPage
  | ValidationError string

section \<open>The advanced search form (forms.py, FullSearchForm)\<close>

text \<open>
  \<open>cleaned_data\<close> as \<open>FullSearchForm.clean\<close> finds it after the fields have been cleaned one
  by one. A \<open>BooleanField\<close> with \<open>required=False\<close> always yields a bool. A \<open>CharField\<close> that
  fails its own validators leaves no key behind, which is why the source reads the two text
  fields with \<open>data.get\<close>: the key is an option here, \<open>None\<close> when it is missing.
  The key \<open>text\<close> is the field \<open>text_field\<close>, since \<open>text\<close> is a keyword of the theory
  language; the other fields carry the names of their keys.
\<close>

record full_search =
  text_field :: "string option"
  in_title :: bool
  in_text :: bool
  in_tags :: bool
  in_comment_text :: bool
  author :: "string option"
  article_author :: bool
  comment_author :: bool

text \<open>Python truth of \<open>data.get(key)\<close> for a string-valued key: present and not empty.\<close>

fun truthy :: "string option \<Rightarrow> bool" where
  "truthy None = False"
| "truthy (Some s) = (s \<noteq> [])"

text \<open>
  \<open>FullSearchForm.clean\<close>: the three checks in the order of the source, each \<open>raise\<close> leaving
  the function at once.
\<close>

definition clean :: "full_search \<Rightarrow> error + full_search" where
  "clean data =
     (if truthy (text_field data)
         \<and> \<not> (in_title data \<or> in_text data \<or> in_tags data \<or> in_comment_text data)
      then Inl (ValidationError ''text_search_criteria_empty'')
      else if truthy (author data) \<and> \<not> (article_author data \<or> comment_author data)
      then Inl (ValidationError ''author_search_criteria_empty'')
      else if \<not> truthy (author data) \<and> \<not> truthy (text_field data)
      then Inl (ValidationError ''author_text_search_criteria_empty'')
      else Inr data)"

section \<open>Python strings\<close>

text \<open>
  A Python \<open>str\<close> is modelled as a list of 8-bit code points. \<open>str.strip()\<close> without an
  argument removes the characters for which \<open>str.isspace\<close> holds; below code point 256 these
  are 9 to 13, 28 to 32, 133 and 160.
\<close>

definition isspace :: "char \<Rightarrow> bool" where
  "isspace c =
     (let n = (of_char c :: nat)
      in (9 \<le> n \<and> n \<le> 13) \<or> (28 \<le> n \<and> n \<le> 32) \<or> n = 133 \<or> n = 160)"

definition strip :: "string \<Rightarrow> string" where
  "strip s = rev (dropWhile isspace (rev (dropWhile isspace s)))"

text \<open>
  \<open>s.split(sep)\<close> for a one-character separator: the pieces between the separators, empty
  pieces kept, so that the empty string splits into one empty piece. \<open>acc\<close> holds the piece
  being read, reversed.
\<close>

fun split_acc :: "char \<Rightarrow> string \<Rightarrow> string \<Rightarrow> string list" where
  "split_acc sep acc [] = [rev acc]"
| "split_acc sep acc (c # cs) =
     (if c = sep then rev acc # split_acc sep [] cs else split_acc sep (c # acc) cs)"

definition split :: "string \<Rightarrow> char \<Rightarrow> string list" where
  "split s sep = split_acc sep [] s"

text \<open>
  Case folding for the \<open>icontains\<close> and \<open>iexact\<close> lookups of the ORM: the letters A to Z are
  folded onto a to z, every other code point is left alone.
\<close>

definition lower_char :: "char \<Rightarrow> char" where
  "lower_char c =
     (let n = (of_char c :: nat) in if 65 \<le> n \<and> n \<le> 90 then char_of (n + 32) else c)"

definition lower :: "string \<Rightarrow> string" where
  "lower s = map lower_char s"

fun startswith :: "string \<Rightarrow> string \<Rightarrow> bool" where
  "startswith s [] = True"
| "startswith [] (p # ps) = False"
| "startswith (c # cs) (p # ps) = (c = p \<and> startswith cs ps)"

fun contains :: "string \<Rightarrow> string \<Rightarrow> bool" where
  "contains [] sub = (sub = [])"
| "contains (c # cs) sub = (startswith (c # cs) sub \<or> contains cs sub)"

definition icontains :: "string \<Rightarrow> string \<Rightarrow> bool" where
  "icontains field_value s = contains (lower field_value) (lower s)"

definition iexact :: "string \<Rightarrow> string \<Rightarrow> bool" where
  "iexact field_value s = (lower field_value = lower s)"

text \<open>
  \<open>int(s)\<close> for a string: white space around the number is dropped, one sign is allowed,
  and the rest is decimal digits, where a single underscore may stand between two digits.
  Anything else is a \<open>ValueError\<close>, here \<open>None\<close>. The white space of \<open>int\<close> is narrower
  than that of \<open>str.strip()\<close>: below code point 256 it is 9 to 13, 32, 133 and 160, and
  the separators 28 to 31 are not accepted. The number of digits is not limited.
\<close>

definition int_space :: "char \<Rightarrow> bool" where
  "int_space c =
     (let n = (of_char c :: nat) in (9 \<le> n \<and> n \<le> 13) \<or> n = 32 \<or> n = 133 \<or> n = 160)"

definition isdigit :: "char \<Rightarrow> bool" where
  "isdigit c = (let n = (of_char c :: nat) in 48 \<le> n \<and> n \<le> 57)"

fun int_digits :: "nat \<Rightarrow> bool \<Rightarrow> string \<Rightarrow> nat option" where
  "int_digits acc after_digit [] = (if after_digit then Some acc else None)"
| "int_digits acc after_digit (c # cs) =
     (if isdigit c then int_digits (10 * acc + (of_char c - 48)) True cs
      else if c = CHR ''_'' \<and> after_digit then int_digits acc False cs
      else None)"

definition py_int :: "string \<Rightarrow> int option" where
  "py_int s =
     (case rev (dropWhile int_space (rev (dropWhile int_space s))) of
        [] \<Rightarrow> None
      | c # cs \<Rightarrow>
          if c = CHR ''-'' then map_option (\<lambda>n. - int n) (int_digits 0 False cs)
          else if c = CHR ''+'' then map_option int (int_digits 0 False cs)
          else map_option int (int_digits 0 False (c # cs)))"

section \<open>The data model\<close>

text \<open>
  Modelled from the spec: \<open>webapp/models.py\<close> is not among the sources. The fields are those
  the views and forms name in their lookups (\<open>title\<close>, \<open>text\<close>, \<open>author\<close>, \<open>created_at\<close>,
  \<open>tags__name\<close>, \<open>comments__text\<close>, \<open>comments__author\<close>) and the spec lists in its data
  model; primary keys are the auto-incrementing integers Django gives a model by default.
\<close>

record article =
  a_pk :: nat
  a_title :: string
  a_text :: string
  a_author :: string
  a_created_at :: int
  a_updated_at :: int

record tag =
  t_pk :: nat
  t_name :: string

record comment =
  c_pk :: nat
  c_article :: nat
  c_author :: string
  c_text :: string
  c_created_at :: int

text \<open>
  The store: the three tables, rows in insertion order, and the rows of the many-to-many
  table behind \<open>Article.tags\<close> as pairs (article pk, tag pk).
\<close>

record db =
  articles :: "article list"
  tags :: "tag list"
  article_tags :: "(nat \<times> nat) list"
  comments :: "comment list"

definition tags_of :: "db \<Rightarrow> article \<Rightarrow> tag list" where
  "tags_of d a =
     concat (map (\<lambda>(ap, tp). if ap = a_pk a then filter (\<lambda>t. t_pk t = tp) (tags d) else [])
               (article_tags d))"

definition comments_of :: "db \<Rightarrow> article \<Rightarrow> comment list" where
  "comments_of d a = filter (\<lambda>c. c_article c = a_pk a) (comments d)"

text \<open>The names of the tags an article (by primary key) is associated with, in row order.\<close>

definition tag_names :: "db \<Rightarrow> nat \<Rightarrow> string list" where
  "tag_names d p =
     concat (map (\<lambda>(ap, tp). if ap = p then map t_name (filter (\<lambda>t. t_pk t = tp) (tags d)) else [])
               (article_tags d))"

text \<open>A fresh primary key: one more than the largest in use.\<close>

definition fresh_pk :: "nat list \<Rightarrow> nat" where
  "fresh_pk pks = Suc (fold max pks 0)"

section \<open>Q objects and querysets\<close>

text \<open>The keyword lookups the views build their \<open>Q\<close> objects from.\<close>

datatype lookup =
    title__icontains string
  | text__icontains string
  | author__icontains string
  | author__iexact string
  | tags__name__iexact string
  | comments__text__icontains string
  | comments__author__iexact string

text \<open>
  A \<open>Q\<close> object is a tree of lookups under \<open>AND\<close> and \<open>OR\<close>; \<open>Q()\<close> has no children. The
  operators \<open>&\<close> and \<open>|\<close> hand back the other operand when one side is empty.
\<close>

datatype q = Q_empty | Q_leaf lookup | Q_and q q | Q_or q q

definition q_and :: "q \<Rightarrow> q \<Rightarrow> q" where
  "q_and a b = (if b = Q_empty then a else if a = Q_empty then b else Q_and a b)"

definition q_or :: "q \<Rightarrow> q \<Rightarrow> q" where
  "q_or a b = (if b = Q_empty then a else if a = Q_empty then b else Q_or a b)"

text \<open>
  One \<open>filter\<close> call is one SQL query over the article table, joined with the tag table
  and with the comment table when a lookup of the call goes through that relation. All
  lookups of one call share the join of a relation, so they see the same tag and the same
  comment of a row. An article without tags (or comments) meets the join with a null row,
  on which every lookup through the relation is false.
\<close>

type_synonym row = "article \<times> tag option \<times> comment option"

fun lookup_holds :: "lookup \<Rightarrow> row \<Rightarrow> bool" where
  "lookup_holds (title__icontains s) (a, t, c) = icontains (a_title a) s"
| "lookup_holds (text__icontains s) (a, t, c) = icontains (a_text a) s"
| "lookup_holds (author__icontains s) (a, t, c) = icontains (a_author a) s"
| "lookup_holds (author__iexact s) (a, t, c) = iexact (a_author a) s"
| "lookup_holds (tags__name__iexact s) (a, t, c) =
     (case t of None \<Rightarrow> False | Some tg \<Rightarrow> iexact (t_name tg) s)"
| "lookup_holds (comments__text__icontains s) (a, t, c) =
     (case c of None \<Rightarrow> False | Some cm \<Rightarrow> icontains (c_text cm) s)"
| "lookup_holds (comments__author__iexact s) (a, t, c) =
     (case c of None \<Rightarrow> False | Some cm \<Rightarrow> iexact (c_author cm) s)"

fun q_holds :: "q \<Rightarrow> row \<Rightarrow> bool" where
  "q_holds Q_empty r = True"
| "q_holds (Q_leaf l) r = lookup_holds l r"
| "q_holds (Q_and a b) r = (q_holds a r \<and> q_holds b r)"
| "q_holds (Q_or a b) r = (q_holds a r \<or> q_holds b r)"

fun through_tags :: "lookup \<Rightarrow> bool" where
  "through_tags (tags__name__iexact s) = True"
| "through_tags l = False"

fun through_comments :: "lookup \<Rightarrow> bool" where
  "through_comments (comments__text__icontains s) = True"
| "through_comments (comments__author__iexact s) = True"
| "through_comments l = False"

fun joins :: "(lookup \<Rightarrow> bool) \<Rightarrow> q \<Rightarrow> bool" where
  "joins rel Q_empty = False"
| "joins rel (Q_leaf l) = rel l"
| "joins rel (Q_and a b) = (joins rel a \<or> joins rel b)"
| "joins rel (Q_or a b) = (joins rel a \<or> joins rel b)"

definition outer :: "'a list \<Rightarrow> 'a option list" where
  "outer xs = (case xs of [] \<Rightarrow> [None] | _ \<Rightarrow> map Some xs)"

definition join_tags :: "db \<Rightarrow> q \<Rightarrow> article \<Rightarrow> tag option list" where
  "join_tags d query a = (if joins through_tags query then outer (tags_of d a) else [None])"

definition join_comments :: "db \<Rightarrow> q \<Rightarrow> article \<Rightarrow> comment option list" where
  "join_comments d query a =
     (if joins through_comments query then outer (comments_of d a) else [None])"

text \<open>
  \<open>queryset.filter(query)\<close>: a queryset is the list of its article rows, and the filter
  gives one row for each joined row of an article on which the query holds.
\<close>

definition filter_q :: "db \<Rightarrow> q \<Rightarrow> article list \<Rightarrow> article list" where
  "filter_q d query queryset =
     [a. a \<leftarrow> queryset, t \<leftarrow> join_tags d query a, c \<leftarrow> join_comments d query a,
         q_holds query (a, t, c)]"

section \<open>The advanced search view (ArticleSearchView)\<close>

definition get_text_query :: "full_search \<Rightarrow> string \<Rightarrow> q" where
  "get_text_query form text =
     (let query = Q_empty;
          query = (if in_title form then q_or query (Q_leaf (title__icontains text)) else query);
          query = (if in_text form then q_or query (Q_leaf (text__icontains text)) else query);
          query = (if in_tags form then q_or query (Q_leaf (tags__name__iexact text)) else query);
          query = (if in_comment_text form
                   then q_or query (Q_leaf (comments__text__icontains text)) else query)
      in query)"

definition get_author_query :: "full_search \<Rightarrow> string \<Rightarrow> q" where
  "get_author_query form author_name =
     (let query = Q_empty;
          query = (if article_author form
                   then q_or query (Q_leaf (author__iexact author_name)) else query);
          query = (if comment_author form
                   then q_or query (Q_leaf (comments__author__iexact author_name)) else query)
      in query)"

text \<open>The query \<open>form_valid\<close> composes before it runs it.\<close>

definition search_query :: "full_search \<Rightarrow> q" where
  "search_query form =
     (let query = Q_empty;
          query = (case text_field form of
                     Some text \<Rightarrow>
                       if text \<noteq> [] then q_and query (get_text_query form text) else query
                   | None \<Rightarrow> query);
          query = (case author form of
                     Some author_name \<Rightarrow>
                       if author_name \<noteq> []
                       then q_and query (get_author_query form author_name) else query
                   | None \<Rightarrow> query)
      in query)"

text \<open>
  \<open>ArticleSearchView.form_valid\<close>: \<open>Article.objects.filter(query).distinct()\<close>, the articles
  put into the context. No ordering is asked for, so the rows come in the order of the
  table; \<open>distinct\<close> keeps one row of each article.
\<close>

definition ArticleSearchView_form_valid :: "db \<Rightarrow> full_search \<Rightarrow> article list" where
  "ArticleSearchView_form_valid d form = remdups (filter_q d (search_query form) (articles d))"

text \<open>
  \<open>form.is_valid()\<close>: no field failed its own validation and \<open>clean\<close> raised nothing.
  \<open>FormView.post\<close> calls \<open>form_valid\<close> only then and otherwise renders the form again with
  the error \<open>clean\<close> raised, if it raised one.
\<close>

definition is_valid :: "full_search \<Rightarrow> bool" where
  "is_valid form =
     (text_field form \<noteq> None \<and> author form \<noteq> None
      \<and> (case clean form of Inl e \<Rightarrow> False | Inr data \<Rightarrow> True))"

datatype search_response = Search_results "article list" | Form_invalid "error option"

definition ArticleSearchView_post :: "db \<Rightarrow> full_search \<Rightarrow> search_response" where
  "ArticleSearchView_post d form =
     (if is_valid form then Search_results (ArticleSearchView_form_valid d form)
      else Form_invalid (case clean form of Inl e \<Rightarrow> Some e | Inr data \<Rightarrow> None))"

section \<open>Creating and updating articles\<close>

text \<open>
  The cleaned fields of \<open>ArticleForm\<close>: the model's fields without \<open>created_at\<close>,
  \<open>updated_at\<close> and \<open>tags\<close>, which the form's \<open>Meta\<close> excludes.
\<close>

record article_form =
  f_title :: string
  f_text :: string
  f_author :: string

text \<open>
  \<open>form.save()\<close>, for a new article and for an existing one. \<open>now\<close> is the clock reading
  the time stamps are taken from.
\<close>

definition save_new :: "db \<Rightarrow> int \<Rightarrow> article_form \<Rightarrow> article \<times> db" where
  "save_new d now form =
     (let a = \<lparr>a_pk = fresh_pk (map a_pk (articles d)), a_title = f_title form,
                a_text = f_text form, a_author = f_author form,
                a_created_at = now, a_updated_at = now\<rparr>
      in (a, d\<lparr>articles := articles d @ [a]\<rparr>))"

definition save_instance :: "db \<Rightarrow> int \<Rightarrow> article_form \<Rightarrow> article \<Rightarrow> article \<times> db" where
  "save_instance d now form old =
     (let a = old\<lparr>a_title := f_title form, a_text := f_text form, a_author := f_author form,
                   a_updated_at := now\<rparr>
      in (a, d\<lparr>articles := map (\<lambda>x. if a_pk x = a_pk old then a else x) (articles d)\<rparr>))"

text \<open>
  \<open>Tag.objects.get_or_create(name=...)\<close>: the one tag of that name, a new one when there
  is none, \<open>MultipleObjectsReturned\<close> when there are several.
\<close>

definition get_or_create :: "db \<Rightarrow> string \<Rightarrow> error + (tag \<times> db)" where
  "get_or_create d name =
     (case filter (\<lambda>t. t_name t = name) (tags d) of
        [] \<Rightarrow> (let t = \<lparr>t_pk = fresh_pk (map t_pk (tags d)), t_name = name\<rparr>
               in Inr (t, d\<lparr>tags := tags d @ [t]\<rparr>))
      | [t] \<Rightarrow> Inr (t, d)
      | _ \<Rightarrow> Inl MultipleObjectsReturned)"

text \<open>\<open>article.tags.add(tag)\<close> adds the row unless it is there; \<open>article.tags.clear()\<close>.\<close>

definition tags_add :: "db \<Rightarrow> nat \<Rightarrow> tag \<Rightarrow> db" where
  "tags_add d p t =
     (if (p, t_pk t) \<in> set (article_tags d) then d
      else d\<lparr>article_tags := article_tags d @ [(p, t_pk t)]\<rparr>)"

definition tags_clear :: "db \<Rightarrow> nat \<Rightarrow> db" where
  "tags_clear d p = d\<lparr>article_tags := filter (\<lambda>(ap, tp). ap \<noteq> p) (article_tags d)\<rparr>"

text \<open>The loop \<open>for tag in tags\<close> that both \<open>form_valid\<close> methods end with.\<close>

fun add_each :: "db \<Rightarrow> nat \<Rightarrow> string list \<Rightarrow> error + db" where
  "add_each d p [] = Inr d"
| "add_each d p (piece # pieces) =
     (case get_or_create d (strip piece) of
        Inl e \<Rightarrow> Inl e
      | Inr (t, d') \<Rightarrow> add_each (tags_add d' p t) p pieces)"

text \<open>
  \<open>ArticleCreateView.form_valid\<close>. \<open>post_tags\<close> is \<open>request.POST.get('tags')\<close>, \<open>None\<close> when
  the request has no such field; \<open>None.split\<close> is an \<open>AttributeError\<close>. The result is the
  primary key the redirect goes to, with the store.
\<close>

definition ArticleCreateView_form_valid ::
  "db \<Rightarrow> int \<Rightarrow> article_form \<Rightarrow> string option \<Rightarrow> error + (nat \<times> db)" where
  "ArticleCreateView_form_valid d now form post_tags =
     (let (object, d1) = save_new d now form
      in case post_tags of
           None \<Rightarrow> Inl AttributeError
         | Some tags_str \<Rightarrow>
             (case add_each d1 (a_pk object) (split tags_str CHR '','') of
                Inl e \<Rightarrow> Inl e
              | Inr d2 \<Rightarrow> Inr (a_pk object, d2)))"

text \<open>\<open>get_object_or_404(Article, pk=pk)\<close>.\<close>

definition get_object_or_404 :: "db \<Rightarrow> nat \<Rightarrow> error + article" where
  "get_object_or_404 d p =
     (case filter (\<lambda>a. a_pk a = p) (articles d) of
        [] \<Rightarrow> Inl Http404
      | [a] \<Rightarrow> Inr a
      | _ \<Rightarrow> Inl MultipleObjectsReturned)"

text \<open>
  \<open>ArticleUpdateView.form_valid\<close> for the article \<open>pk\<close> of the URL, which is also the
  instance the form was bound to.
\<close>

definition ArticleUpdateView_form_valid ::
  "db \<Rightarrow> int \<Rightarrow> nat \<Rightarrow> article_form \<Rightarrow> string option \<Rightarrow> error + (nat \<times> db)" where
  "ArticleUpdateView_form_valid d now p form post_tags =
     (case get_object_or_404 d p of
        Inl e \<Rightarrow> Inl e
      | Inr article \<Rightarrow>
          (let d1 = tags_clear d (a_pk article);
               (object, d2) = save_instance d1 now form article
           in case post_tags of
                None \<Rightarrow> Inl AttributeError
              | Some tags_str \<Rightarrow>
                  (case add_each d2 (a_pk object) (split tags_str CHR '','') of
                     Inl e \<Rightarrow> Inl e
                   | Inr d3 \<Rightarrow> Inr (a_pk object, d3))))"

section \<open>The list view (IndexView)\<close>

record request =
  GET_search :: "string option"
  GET_tag :: "string option"
  GET_page :: "string option"

definition paginate_by :: nat where
  "paginate_by = 5"

definition paginate_orphans :: nat where
  "paginate_orphans = 1"

text \<open>
  \<open>SimpleSearchForm\<close>: one \<open>CharField(max_length=100, required=False)\<close>. The field strips
  its value, takes a missing one for the empty string, and is valid when the result has at
  most 100 characters and no null character. The result is \<open>cleaned_data['search']\<close> of a
  valid form and \<open>None\<close> for an invalid one, which is what \<open>get_search_query\<close> returns.
\<close>

definition get_search_query :: "request \<Rightarrow> string option" where
  "get_search_query r =
     (let v = strip (case GET_search r of None \<Rightarrow> [] | Some s \<Rightarrow> s)
      in if length v \<le> 100 \<and> CHR 0x00 \<notin> set v then Some v else None)"

definition form_is_valid :: "request \<Rightarrow> bool" where
  "form_is_valid r = (get_search_query r \<noteq> None)"

definition get_tag_query :: "request \<Rightarrow> string option" where
  "get_tag_query r = (if form_is_valid r then GET_tag r else None)"

text \<open>
  \<open>Tag.objects.get(pk=value)\<close> with the string of the request: the integer primary key
  field converts it with \<open>int\<close>. The key column holds signed 64-bit integers; a number
  outside that range cannot be handed to the database as a parameter of the query, and
  the \<open>OverflowError\<close> of the database driver comes up as it is (SQLite, in the versions of
  Django in which the lookup does not test the range itself).
\<close>

definition in_key_range :: "int \<Rightarrow> bool" where
  "in_key_range k = (- (2 ^ 63) \<le> k \<and> k < 2 ^ 63)"

definition Tag_objects_get :: "db \<Rightarrow> string \<Rightarrow> error + tag" where
  "Tag_objects_get d value =
     (case py_int value of
        None \<Rightarrow> Inl ValueError
      | Some k \<Rightarrow>
          if \<not> in_key_range k then Inl OverflowError
          else (case filter (\<lambda>t. int (t_pk t) = k) (tags d) of
                  [] \<Rightarrow> Inl DoesNotExist
                | [t] \<Rightarrow> Inr t
                | _ \<Rightarrow> Inl MultipleObjectsReturned))"

text \<open>
  Modelled from the spec: \<open>Tag.__str__\<close> is in \<open>webapp/models.py\<close>, which is not among the
  sources. The view hands the tag object itself to a lookup on the name, which takes its
  \<open>str\<close>; the spec has this filter select the articles with exactly that tag, so \<open>str\<close> of a
  tag is its name.
\<close>

definition tag_str :: "tag \<Rightarrow> string" where
  "tag_str t = t_name t"

text \<open>
  \<open>ordering = ['-created_at']\<close>: what \<open>super().get_queryset()\<close> returns. Articles created
  at the same time stay in the order of the table.
\<close>

definition ordered :: "db \<Rightarrow> article list" where
  "ordered d = sort_key (\<lambda>a. - a_created_at a) (articles d)"

definition IndexView_get_queryset :: "db \<Rightarrow> request \<Rightarrow> error + article list" where
  "IndexView_get_queryset d r =
     (let queryset = ordered d;
          queryset = (case get_search_query r of
                        Some search \<Rightarrow>
                          if search \<noteq> []
                          then filter_q d (Q_or (Q_or (Q_leaf (title__icontains search))
                                                      (Q_leaf (author__icontains search)))
                                                (Q_leaf (tags__name__iexact search))) queryset
                          else queryset
                      | None \<Rightarrow> queryset)
      in case get_tag_query r of
           Some tag_query \<Rightarrow>
             if tag_query \<noteq> []
             then (case Tag_objects_get d tag_query of
                     Inl e \<Rightarrow> Inl e
                   | Inr t \<Rightarrow> Inr (filter_q d (Q_leaf (tags__name__iexact (tag_str t))) queryset))
             else Inr queryset
         | None \<Rightarrow> Inr queryset)"

text \<open>
  \<open>django.core.paginator.Paginator\<close> with \<open>allow_empty_first_page\<close> left at \<open>True\<close>:
  \<open>num_pages\<close> and \<open>page(number)\<close>.
\<close>

definition num_pages :: "nat \<Rightarrow> nat \<Rightarrow> nat \<Rightarrow> nat" where
  "num_pages cnt per_page orphans =
     (let hits = max 1 (cnt - orphans) in (hits + per_page - 1) div per_page)"

record page =
  object_list :: "article list"
  number :: nat
  pages :: nat

definition paginator_page :: "article list \<Rightarrow> nat \<Rightarrow> nat \<Rightarrow> int \<Rightarrow> error + page" where
  "paginator_page objects per_page orphans n =
     (let cnt = length objects; np = num_pages cnt per_page orphans
      in if n < 1 then Inl InvalidPage
         else if n > int np \<and> n \<noteq> 1 then Inl InvalidPage
         else
           (let bottom = (nat n - 1) * per_page;
                top = bottom + per_page;
                top = (if top + orphans \<ge> cnt then cnt else top)
            in Inr \<lparr>object_list = take (top - bottom) (drop bottom objects),
                     number = nat n, pages = np\<rparr>))"

text \<open>
  \<open>MultipleObjectMixin.paginate_queryset\<close>: the page parameter, 1 when it is missing or
  empty, is read with \<open>int\<close>, where \<open>last\<close> stands for the last page; a page that does not
  exist is a 404.
\<close>

definition paginate_queryset ::
  "article list \<Rightarrow> nat \<Rightarrow> nat \<Rightarrow> string option \<Rightarrow> error + page" where
  "paginate_queryset queryset page_size orphans page_param =
     (let page_str = (if truthy page_param then (case page_param of Some s \<Rightarrow> s | None \<Rightarrow> ''1'')
                      else ''1'')
      in case (case py_int page_str of
                 Some n \<Rightarrow> Inr n
               | None \<Rightarrow>
                   if page_str = ''last''
                   then Inr (int (num_pages (length queryset) page_size orphans))
                   else Inl Http404) of
           Inl e \<Rightarrow> Inl e
         | Inr page_number \<Rightarrow>
             (case paginator_page queryset page_size orphans page_number of
                Inl e \<Rightarrow> Inl Http404
              | Inr pg \<Rightarrow> Inr pg))"

text \<open>\<open>IndexView.get\<close>: the queryset, then its page.\<close>

definition IndexView_get :: "db \<Rightarrow> request \<Rightarrow> error + page" where
  "IndexView_get d r =
     (case IndexView_get_queryset d r of
        Inl e \<Rightarrow> Inl e
      | Inr queryset \<Rightarrow> paginate_queryset queryset paginate_by paginate_orphans (GET_page r))"

section \<open>Consistency of the store\<close>

text \<open>
  What the database constraints give: primary keys are unique, tag names are unique (the
  spec's data model has the name as the tag's unique identifier), the rows of the
  many-to-many table are unique and refer to an existing article and an existing tag.
\<close>

definition wf_db :: "db \<Rightarrow> bool" where
  "wf_db d =
     (distinct (map a_pk (articles d)) \<and> distinct (map t_pk (tags d))
      \<and> distinct (map t_name (tags d)) \<and> distinct (article_tags d)
      \<and> list_all (\<lambda>(ap, tp). ap \<in> set (map a_pk (articles d)) \<and> tp \<in> set (map t_pk (tags d)))
           (article_tags d))"

section \<open>Example inputs\<close>

definition form_no_scope :: full_search where
  "form_no_scope =
     \<lparr>text_field = Some ''foo'', in_title = False, in_text = False, in_tags = False,
      in_comment_text = False, author = Some ''bob'', article_author = False,
      comment_author = False\<rparr>"

definition form_blank :: full_search where
  "form_blank =
     \<lparr>text_field = Some [], in_title = True, in_text = True, in_tags = True,
      in_comment_text = False, author = Some [], article_author = True,
      comment_author = False\<rparr>"

definition form_title_foo :: full_search where
  "form_title_foo =
     \<lparr>text_field = Some ''foo'', in_title = True, in_text = False, in_tags = False,
      in_comment_text = False, author = Some [], article_author = True,
      comment_author = False\<rparr>"

definition db_empty :: db where
  "db_empty = \<lparr>articles = [], tags = [], article_tags = [], comments = []\<rparr>"

definition a1 :: article where
  "a1 = \<lparr>a_pk = 1, a_title = ''Foo bar'', a_text = ''body'', a_author = ''Ann'',
          a_created_at = 10, a_updated_at = 10\<rparr>"

definition a2 :: article where
  "a2 = \<lparr>a_pk = 2, a_title = ''Other'', a_text = ''some foo inside'', a_author = ''Bob'',
          a_created_at = 20, a_updated_at = 20\<rparr>"

definition a3 :: article where
  "a3 = \<lparr>a_pk = 3, a_title = ''Third'', a_text = ''nothing'', a_author = ''Ann'',
          a_created_at = 30, a_updated_at = 30\<rparr>"

definition a4 :: article where
  "a4 = \<lparr>a_pk = 4, a_title = ''Fourth'', a_text = ''nothing'', a_author = ''Cid'',
          a_created_at = 40, a_updated_at = 40\<rparr>"

text \<open>
  Four articles: the first carries the tags \<open>foo\<close> and \<open>FOO\<close>, the third the tag \<open>foo\<close>,
  the second has \<open>foo\<close> in its body only and the fourth in a comment only.
\<close>

definition db_blog :: db where
  "db_blog =
     \<lparr>articles = [a1, a2, a3, a4],
      tags = [\<lparr>t_pk = 1, t_name = ''foo''\<rparr>, \<lparr>t_pk = 2, t_name = ''x''\<rparr>,
              \<lparr>t_pk = 3, t_name = ''FOO''\<rparr>],
      article_tags = [(1, 1), (1, 3), (3, 1)],
      comments = [\<lparr>c_pk = 1, c_article = 4, c_author = ''Dan'', c_text = ''foo!'',
                   c_created_at = 50\<rparr>]\<rparr>"

definition form_foo_ann :: full_search where
  "form_foo_ann =
     \<lparr>text_field = Some ''foo'', in_title = True, in_text = False, in_tags = True,
      in_comment_text = False, author = Some ''ann'', article_author = True,
      comment_author = False\<rparr>"

text \<open>A form for an article, the empty store after creating it with the tags \<open>a, b ,, b\<close>, and a store whose first article carries the tags \<open>x\<close> and \<open>y\<close>.\<close>

definition form_post :: article_form where
  "form_post = \<lparr>f_title = ''Hello'', f_text = ''First post'', f_author = ''Ann''\<rparr>"

definition db_after_create :: db where
  "db_after_create =
     \<lparr>articles = [\<lparr>a_pk = 1, a_title = ''Hello'', a_text = ''First post'', a_author = ''Ann'',
                    a_created_at = 60, a_updated_at = 60\<rparr>],
      tags = [\<lparr>t_pk = 1, t_name = ''a''\<rparr>, \<lparr>t_pk = 2, t_name = ''b''\<rparr>,
              \<lparr>t_pk = 3, t_name = []\<rparr>],
      article_tags = [(1, 1), (1, 2), (1, 3)],
      comments = []\<rparr>"

definition db_xy :: db where
  "db_xy =
     \<lparr>articles = [a1, a2],
      tags = [\<lparr>t_pk = 1, t_name = ''x''\<rparr>, \<lparr>t_pk = 2, t_name = ''y''\<rparr>],
      article_tags = [(1, 1), (2, 1), (1, 2)],
      comments = []\<rparr>"

text \<open>
  Three articles with one tag each, the first and the third tagged \<open>x\<close>, the first and
  the second with \<open>foo\<close> in the title; and requests to the list view with a search, with a
  tag, with both and with neither.
\<close>

definition b1 :: article where
  "b1 = \<lparr>a_pk = 1, a_title = ''foo one'', a_text = ''t'', a_author = ''Ann'',
          a_created_at = 30, a_updated_at = 30\<rparr>"

definition b2 :: article where
  "b2 = \<lparr>a_pk = 2, a_title = ''Foo two'', a_text = ''t'', a_author = ''Bob'',
          a_created_at = 20, a_updated_at = 20\<rparr>"

definition b3 :: article where
  "b3 = \<lparr>a_pk = 3, a_title = ''bar'', a_text = ''t'', a_author = ''Cid'',
          a_created_at = 10, a_updated_at = 10\<rparr>"

definition db_three :: db where
  "db_three =
     \<lparr>articles = [b3, b1, b2],
      tags = [\<lparr>t_pk = 1, t_name = ''x''\<rparr>, \<lparr>t_pk = 2, t_name = ''y''\<rparr>],
      article_tags = [(1, 1), (2, 2), (3, 1)],
      comments = []\<rparr>"

definition request_none :: request where
  "request_none = \<lparr>GET_search = None, GET_tag = None, GET_page = None\<rparr>"

definition request_search :: request where
  "request_search = \<lparr>GET_search = Some ''foo'', GET_tag = None, GET_page = None\<rparr>"

definition request_tag :: request where
  "request_tag = \<lparr>GET_search = None, GET_tag = Some ''1'', GET_page = None\<rparr>"

definition request_both :: request where
  "request_both = \<lparr>GET_search = Some ''foo'', GET_tag = Some ''1'', GET_page = None\<rparr>"

definition request_missing_tag :: request where
  "request_missing_tag = \<lparr>GET_search = None, GET_tag = Some ''99'', GET_page = None\<rparr>"

definition request_word_tag :: request where
  "request_word_tag = \<lparr>GET_search = None, GET_tag = Some ''abc'', GET_page = None\<rparr>"

definition request_huge_tag :: request where
  "request_huge_tag =
     \<lparr>GET_search = None, GET_tag = Some ''9223372036854775808'', GET_page = None\<rparr>"





section \<open>Validation of the advanced search form\<close>

text \<open>
  C3. When \<open>text\<close> is not empty and none of the four text scopes is ticked, \<open>clean\<close> raises
  the validation error with code \<open>text_search_criteria_empty\<close>, and the view does not run
  the search: it answers with the invalid form and that error.
\<close>

theorem text_scope_required:
  assumes "truthy (text_field form)"
    and "\<not> in_title form" and "\<not> in_text form" and "\<not> in_tags form"
    and "\<not> in_comment_text form"
  shows "clean form = Inl (ValidationError ''text_search_criteria_empty'')
         \<and> ArticleSearchView_post d form
             = Form_invalid (Some (ValidationError ''text_search_criteria_empty''))"
  using assms by (simp add: clean_def ArticleSearchView_post_def is_valid_def)

theorem text_scope_required_witness:
  "truthy (text_field form_no_scope) \<and> \<not> in_title form_no_scope \<and> \<not> in_text form_no_scope
   \<and> \<not> in_tags form_no_scope \<and> \<not> in_comment_text form_no_scope
   \<and> clean form_no_scope = Inl (ValidationError ''text_search_criteria_empty'')
   \<and> ArticleSearchView_post db_empty form_no_scope
       = Form_invalid (Some (ValidationError ''text_search_criteria_empty''))"
  using text_scope_required [of form_no_scope db_empty] by (simp add: form_no_scope_def)

text \<open>
  C4. When \<open>author\<close> is not empty and neither author scope is ticked, \<open>clean\<close> raises a
  validation error. The checks run in order and the first failing one raises: when the
  text scope rule is broken as well, the error is the text scope error and the author
  check is never reached; otherwise it is the author scope error.
\<close>

theorem author_scope_required:
  assumes "truthy (author form)" and "\<not> article_author form" and "\<not> comment_author form"
  shows "clean form =
           Inl (ValidationError
                 (if truthy (text_field form)
                     \<and> \<not> (in_title form \<or> in_text form \<or> in_tags form \<or> in_comment_text form)
                  then ''text_search_criteria_empty'' else ''author_search_criteria_empty''))"
  using assms by (simp add: clean_def)

theorem author_scope_required_witness:
  "truthy (author form_no_scope) \<and> \<not> article_author form_no_scope
   \<and> \<not> comment_author form_no_scope
   \<and> clean form_no_scope = Inl (ValidationError ''text_search_criteria_empty'')
   \<and> clean (form_no_scope\<lparr>in_title := True\<rparr>)
       = Inl (ValidationError ''author_search_criteria_empty'')"
  using author_scope_required [of form_no_scope]
    author_scope_required [of "form_no_scope\<lparr>in_title := True\<rparr>"]
  by (simp add: form_no_scope_def)

text \<open>
  C5. When \<open>text\<close> and \<open>author\<close> are both empty, \<open>clean\<close> raises the validation error with
  code \<open>author_text_search_criteria_empty\<close>; so whenever \<open>clean\<close> returns the data, at least
  one of the two is not empty.
\<close>

theorem text_or_author_required:
  "(\<not> truthy (text_field form) \<and> \<not> truthy (author form)
      \<longrightarrow> clean form = Inl (ValidationError ''author_text_search_criteria_empty''))
   \<and> (clean form = Inr data \<longrightarrow> truthy (text_field form) \<or> truthy (author form))"
  by (auto simp add: clean_def split: if_splits)

theorem text_or_author_required_witness:
  "\<not> truthy (text_field form_blank) \<and> \<not> truthy (author form_blank)
   \<and> clean form_blank = Inl (ValidationError ''author_text_search_criteria_empty'')
   \<and> clean form_title_foo = Inr form_title_foo
   \<and> (truthy (text_field form_title_foo) \<or> truthy (author form_title_foo))"
  using text_or_author_required [of form_blank form_blank]
    text_or_author_required [of form_title_foo form_title_foo]
  by (simp add: form_blank_def form_title_foo_def clean_def)

section \<open>Composition of the search query\<close>

lemma set_filter_q:
  "set (filter_q d query queryset) =
     {a \<in> set queryset. \<exists>t \<in> set (join_tags d query a). \<exists>c \<in> set (join_comments d query a).
        q_holds query (a, t, c)}"
  by (auto simp add: filter_q_def)

lemma get_text_query_holds:
  assumes "in_title form \<or> in_text form \<or> in_tags form \<or> in_comment_text form"
  shows "q_holds (get_text_query form text) (a, t, c) =
           (in_title form \<and> icontains (a_title a) text
            \<or> in_text form \<and> icontains (a_text a) text
            \<or> in_tags form \<and> (\<exists>tg. t = Some tg \<and> iexact (t_name tg) text)
            \<or> in_comment_text form \<and> (\<exists>cm. c = Some cm \<and> icontains (c_text cm) text))"
  using assms
  by (cases "in_title form"; cases "in_text form"; cases "in_tags form";
      cases "in_comment_text form")
     (auto simp add: get_text_query_def q_or_def split: option.splits)

lemma get_text_query_joins:
  "joins through_tags (get_text_query form text) = in_tags form"
  "joins through_comments (get_text_query form text) = in_comment_text form"
  by (cases "in_title form"; cases "in_text form"; cases "in_tags form";
      cases "in_comment_text form"; simp add: get_text_query_def q_or_def)+

lemma get_author_query_holds:
  assumes "article_author form \<or> comment_author form"
  shows "q_holds (get_author_query form name) (a, t, c) =
           (article_author form \<and> iexact (a_author a) name
            \<or> comment_author form \<and> (\<exists>cm. c = Some cm \<and> iexact (c_author cm) name))"
  using assms
  by (cases "article_author form"; cases "comment_author form")
     (auto simp add: get_author_query_def q_or_def split: option.splits)

lemma get_text_query_empty:
  "(get_text_query form text = Q_empty) =
     (\<not> (in_title form \<or> in_text form \<or> in_tags form \<or> in_comment_text form))"
  by (cases "in_title form"; cases "in_text form"; cases "in_tags form";
      cases "in_comment_text form"; simp add: get_text_query_def q_or_def)

lemma get_author_query_empty:
  "(get_author_query form name = Q_empty) = (\<not> (article_author form \<or> comment_author form))"
  by (cases "article_author form"; cases "comment_author form";
      simp add: get_author_query_def q_or_def)

lemma is_valid_scopes:
  assumes "is_valid form"
  shows "truthy (text_field form)
           \<Longrightarrow> in_title form \<or> in_text form \<or> in_tags form \<or> in_comment_text form"
    and "truthy (author form) \<Longrightarrow> article_author form \<or> comment_author form"
    and "truthy (text_field form) \<or> truthy (author form)"
  using assms by (auto simp add: is_valid_def clean_def split: if_splits)

lemma bex_outer_const: "(\<exists>t \<in> set (outer xs). P) = P"
  by (cases xs) (auto simp add: outer_def)

lemma bex_outer_Some: "(\<exists>t \<in> set (outer xs). \<exists>x. t = Some x \<and> Q x) = (\<exists>x \<in> set xs. Q x)"
  by (cases xs) (auto simp add: outer_def)

lemma ex_outer: "\<exists>t. t \<in> set (outer xs)"
  by (cases xs) (auto simp add: outer_def)

lemma filter_q_no_join:
  assumes "\<not> joins through_tags query" and "\<not> joins through_comments query"
  shows "filter_q d query queryset = filter (\<lambda>a. q_holds query (a, None, None)) queryset"
  using assms by (induction queryset) (simp_all add: filter_q_def join_tags_def join_comments_def)

text \<open>
  C6. For a valid advanced search, the query \<open>form_valid\<close> filters with is the text query
  \<open>AND\<close> the author query when both \<open>text\<close> and \<open>author\<close> are given, and the one query
  that is given otherwise: on every joined row it holds exactly when each given side
  holds, a side that is not given putting no condition. The articles returned are those
  with a joined row on which the query holds, each of them once.
\<close>

theorem search_query_composition:
  assumes "is_valid form" and "text_field form = Some text"
    and "author form = Some author_name"
  shows "search_query form =
           (if text \<noteq> [] \<and> author_name \<noteq> []
            then Q_and (get_text_query form text) (get_author_query form author_name)
            else if text \<noteq> [] then get_text_query form text
            else get_author_query form author_name)
         \<and> (\<forall>r. q_holds (search_query form) r =
                  ((text \<noteq> [] \<longrightarrow> q_holds (get_text_query form text) r)
                   \<and> (author_name \<noteq> [] \<longrightarrow> q_holds (get_author_query form author_name) r)))
         \<and> distinct (ArticleSearchView_form_valid d form)
         \<and> set (ArticleSearchView_form_valid d form) =
             {a \<in> set (articles d).
                \<exists>t \<in> set (join_tags d (search_query form) a).
                \<exists>c \<in> set (join_comments d (search_query form) a).
                  q_holds (search_query form) (a, t, c)}"
proof -
  have t: "text \<noteq> [] \<Longrightarrow> get_text_query form text \<noteq> Q_empty"
    using is_valid_scopes(1) [OF assms(1)] assms(2) by (simp add: get_text_query_empty)
  have a: "author_name \<noteq> [] \<Longrightarrow> get_author_query form author_name \<noteq> Q_empty"
    using is_valid_scopes(2) [OF assms(1)] assms(3) by (simp add: get_author_query_empty)
  have one: "text \<noteq> [] \<or> author_name \<noteq> []"
    using is_valid_scopes(3) [OF assms(1)] assms(2,3) by simp
  have q: "search_query form =
           (if text \<noteq> [] \<and> author_name \<noteq> []
            then Q_and (get_text_query form text) (get_author_query form author_name)
            else if text \<noteq> [] then get_text_query form text
            else get_author_query form author_name)"
    using t a one by (auto simp add: search_query_def q_and_def assms(2,3))
  have h: "\<forall>r. q_holds (search_query form) r =
                  ((text \<noteq> [] \<longrightarrow> q_holds (get_text_query form text) r)
                   \<and> (author_name \<noteq> [] \<longrightarrow> q_holds (get_author_query form author_name) r))"
    using one by (auto simp add: q)
  show ?thesis
    using q h by (simp add: ArticleSearchView_form_valid_def set_filter_q)
qed

theorem search_query_composition_witness:
  "is_valid form_foo_ann \<and> text_field form_foo_ann = Some ''foo''
   \<and> author form_foo_ann = Some ''ann''
   \<and> search_query form_foo_ann =
       Q_and (Q_or (Q_leaf (title__icontains ''foo'')) (Q_leaf (tags__name__iexact ''foo'')))
             (Q_leaf (author__iexact ''ann''))
   \<and> filter_q db_blog (search_query form_foo_ann) (articles db_blog) = [a1, a1, a3]
   \<and> distinct (ArticleSearchView_form_valid db_blog form_foo_ann)"
proof -
  have v: "is_valid form_foo_ann"
    by code_simp
  have t: "text_field form_foo_ann = Some ''foo''" and a: "author form_foo_ann = Some ''ann''"
    by (simp_all add: form_foo_ann_def)
  have tq: "get_text_query form_foo_ann ''foo'' =
              Q_or (Q_leaf (title__icontains ''foo'')) (Q_leaf (tags__name__iexact ''foo''))"
    and aq: "get_author_query form_foo_ann ''ann'' = Q_leaf (author__iexact ''ann'')"
    by (simp_all add: form_foo_ann_def get_text_query_def get_author_query_def q_or_def)
  have rows: "filter_q db_blog (search_query form_foo_ann) (articles db_blog) = [a1, a1, a3]"
    by code_simp
  show ?thesis
    using search_query_composition [OF v t a, of db_blog] v t a tq aq rows by simp
qed

text \<open>
  C7. For a valid advanced search with a non-empty \<open>text\<close>, the text query is the \<open>OR\<close>
  over exactly the ticked scopes: the title contains the text, the body contains the
  text, the name of a tag equals the text, the text of a comment contains the text, all
  without regard to case. With the title as the only ticked scope the query selects
  exactly the articles whose title contains the text; an article that matches in its
  body, tags or comments only is left out.
\<close>

theorem text_query_scopes:
  assumes "is_valid form" and "text_field form = Some text" and "text \<noteq> []"
  shows "(\<forall>a t c. q_holds (get_text_query form text) (a, t, c) =
            (in_title form \<and> icontains (a_title a) text
             \<or> in_text form \<and> icontains (a_text a) text
             \<or> in_tags form \<and> (\<exists>tg. t = Some tg \<and> iexact (t_name tg) text)
             \<or> in_comment_text form \<and> (\<exists>cm. c = Some cm \<and> icontains (c_text cm) text)))
       \<and> (\<forall>a. a \<in> set (filter_q d (get_text_query form text) queryset) \<longleftrightarrow>
            a \<in> set queryset \<and>
            (in_title form \<and> icontains (a_title a) text
             \<or> in_text form \<and> icontains (a_text a) text
             \<or> in_tags form \<and> (\<exists>tg \<in> set (tags_of d a). iexact (t_name tg) text)
             \<or> in_comment_text form
                \<and> (\<exists>cm \<in> set (comments_of d a). icontains (c_text cm) text)))
       \<and> (in_title form \<and> \<not> in_text form \<and> \<not> in_tags form \<and> \<not> in_comment_text form \<longrightarrow>
            filter_q d (get_text_query form text) queryset
              = filter (\<lambda>a. icontains (a_title a) text) queryset
            \<and> (\<not> truthy (author form) \<longrightarrow>
                 ArticleSearchView_form_valid d form
                   = remdups (filter (\<lambda>a. icontains (a_title a) text) (articles d))))"
proof -
  have sc: "in_title form \<or> in_text form \<or> in_tags form \<or> in_comment_text form"
    using is_valid_scopes(1) [OF assms(1)] assms(2,3) by simp
  note h = get_text_query_holds [OF sc]
  have p1: "\<forall>a t c. q_holds (get_text_query form text) (a, t, c) =
            (in_title form \<and> icontains (a_title a) text
             \<or> in_text form \<and> icontains (a_text a) text
             \<or> in_tags form \<and> (\<exists>tg. t = Some tg \<and> iexact (t_name tg) text)
             \<or> in_comment_text form \<and> (\<exists>cm. c = Some cm \<and> icontains (c_text cm) text))"
    using h by blast
  have p2: "\<forall>a. a \<in> set (filter_q d (get_text_query form text) queryset) \<longleftrightarrow>
            a \<in> set queryset \<and>
            (in_title form \<and> icontains (a_title a) text
             \<or> in_text form \<and> icontains (a_text a) text
             \<or> in_tags form \<and> (\<exists>tg \<in> set (tags_of d a). iexact (t_name tg) text)
             \<or> in_comment_text form
                \<and> (\<exists>cm \<in> set (comments_of d a). icontains (c_text cm) text))"
    unfolding set_filter_q h
    by (cases "in_tags form"; cases "in_comment_text form")
       (simp_all add: join_tags_def join_comments_def get_text_query_joins bex_disj_distrib
          bex_outer_const bex_outer_Some ex_outer)
  have p3: "filter_q d (get_text_query form text) queryset
              = filter (\<lambda>a. icontains (a_title a) text) queryset"
    if only: "in_title form \<and> \<not> in_text form \<and> \<not> in_tags form \<and> \<not> in_comment_text form"
    using only by (simp add: filter_q_no_join get_text_query_joins h)
  have p4: "ArticleSearchView_form_valid d form
              = remdups (filter (\<lambda>a. icontains (a_title a) text) (articles d))"
    if only: "in_title form \<and> \<not> in_text form \<and> \<not> in_tags form \<and> \<not> in_comment_text form"
      and na: "\<not> truthy (author form)"
  proof -
    have "search_query form = get_text_query form text"
      using na assms(2,3) sc
      by (cases "author form") (simp_all add: search_query_def q_and_def get_text_query_empty)
    then show ?thesis
      using only by (simp add: ArticleSearchView_form_valid_def filter_q_no_join get_text_query_joins h)
  qed
  show ?thesis using p1 p2 p3 p4 by blast
qed


theorem text_query_scopes_witness:
  "is_valid form_title_foo \<and> text_field form_title_foo = Some ''foo'' \<and> ''foo'' \<noteq> []
   \<and> ArticleSearchView_form_valid db_blog form_title_foo = [a1]"
proof -
  have v: "is_valid form_title_foo"
    by code_simp
  have t: "text_field form_title_foo = Some ''foo''"
    by (simp add: form_title_foo_def)
  have only: "in_title form_title_foo \<and> \<not> in_text form_title_foo \<and> \<not> in_tags form_title_foo
              \<and> \<not> in_comment_text form_title_foo \<and> \<not> truthy (author form_title_foo)"
    by (simp add: form_title_foo_def)
  have ev: "remdups (filter (\<lambda>a. icontains (a_title a) ''foo'') (articles db_blog)) = [a1]"
    by code_simp
  show ?thesis
    using text_query_scopes [OF v t, of db_blog "articles db_blog"] v t only ev by simp
qed

section \<open>Tags of a created or updated article\<close>

lemma set_tag_names:
  "set (tag_names d p) = {t_name t | t. t \<in> set (tags d) \<and> (p, t_pk t) \<in> set (article_tags d)}"
  by (auto simp add: tag_names_def split: if_splits)

lemma fold_max_ge: "(a::nat) \<le> fold max xs a"
proof (induction xs arbitrary: a)
  case Nil
  show ?case by simp
next
  case (Cons x xs)
  have "a \<le> max x a" by simp
  also have "max x a \<le> fold max xs (max x a)" by (rule Cons.IH)
  finally show ?case by simp
qed

lemma fold_max_mem: "(x::nat) \<in> set xs \<Longrightarrow> x \<le> fold max xs a"
proof (induction xs arbitrary: a)
  case Nil
  then show ?case by simp
next
  case (Cons y ys)
  show ?case
  proof (cases "x = y")
    case True
    have "x \<le> max y a" using True by simp
    also have "max y a \<le> fold max ys (max y a)" by (rule fold_max_ge)
    finally show ?thesis by simp
  next
    case False
    then have "x \<in> set ys" using Cons.prems by simp
    then show ?thesis using Cons.IH by simp
  qed
qed

lemma fresh_pk_new: "fresh_pk pks \<notin> set pks"
proof
  assume "fresh_pk pks \<in> set pks"
  then have "fresh_pk pks \<le> fold max pks 0" by (rule fold_max_mem)
  then show False by (simp add: fresh_pk_def)
qed

lemma filter_distinct_key:
  "distinct (map f xs) \<Longrightarrow>
     filter (\<lambda>x. f x = k) xs = [] \<or> (\<exists>x. filter (\<lambda>x. f x = k) xs = [x])"
proof (induction xs)
  case Nil
  then show ?case by simp
next
  case (Cons y ys)
  show ?case
  proof (cases "f y = k")
    case True
    have "f y \<notin> f ` set ys"
      using Cons.prems by simp
    then have "\<forall>x \<in> set ys. f x \<noteq> k"
      using True by (metis imageI)
    then have "filter (\<lambda>x. f x = k) ys = []"
      by (simp add: filter_empty_conv)
    then show ?thesis using True by simp
  next
    case False
    then show ?thesis using Cons by simp
  qed
qed

lemma get_or_create_wf:
  assumes "wf_db d"
  shows "\<exists>t d'. get_or_create d name = Inr (t, d') \<and> t_name t = name \<and> t \<in> set (tags d')
           \<and> wf_db d' \<and> articles d' = articles d \<and> article_tags d' = article_tags d
           \<and> (\<forall>q. set (tag_names d' q) = set (tag_names d q))"
proof -
  from assms have dn: "distinct (map t_name (tags d))" by (simp add: wf_db_def)
  from filter_distinct_key [OF dn, of name]
  consider (none) "filter (\<lambda>t. t_name t = name) (tags d) = []"
    | (one) t where "filter (\<lambda>t. t_name t = name) (tags d) = [t]"
    by blast
  then show ?thesis
  proof cases
    case none
    let ?t = "\<lparr>t_pk = fresh_pk (map t_pk (tags d)), t_name = name\<rparr>"
    let ?d = "d\<lparr>tags := tags d @ [?t]\<rparr>"
    have g: "get_or_create d name = Inr (?t, ?d)"
      using none by (simp add: get_or_create_def Let_def)
    have fr: "fresh_pk (map t_pk (tags d)) \<notin> set (map t_pk (tags d))"
      by (rule fresh_pk_new)
    have nn: "name \<notin> set (map t_name (tags d))"
      using none by (auto simp add: filter_empty_conv)
    have wf: "wf_db ?d"
      using assms fr nn by (auto simp add: wf_db_def list_all_iff)
    have rows: "\<And>q tp. (q, tp) \<in> set (article_tags d) \<Longrightarrow> tp \<in> set (map t_pk (tags d))"
      using assms by (auto simp add: wf_db_def list_all_iff)
    have same: "\<forall>q. set (tag_names ?d q) = set (tag_names d q)"
      using fr rows by (auto simp add: set_tag_names) 
    show ?thesis using g wf same by simp
  next
    case one
    have g: "get_or_create d name = Inr (t, d)"
      using one by (simp add: get_or_create_def)
    have "t \<in> set (filter (\<lambda>t. t_name t = name) (tags d))"
      using one by simp
    then have "t \<in> set (tags d) \<and> t_name t = name" by simp
    then show ?thesis using g assms by simp
  qed
qed

lemma tags_add_wf:
  assumes "wf_db d" and "p \<in> set (map a_pk (articles d))" and "t \<in> set (tags d)"
  shows "wf_db (tags_add d p t) \<and> articles (tags_add d p t) = articles d
         \<and> set (tag_names (tags_add d p t) p) = insert (t_name t) (set (tag_names d p))"
proof -
  have inj: "\<And>t'. t' \<in> set (tags d) \<Longrightarrow> t_pk t' = t_pk t \<Longrightarrow> t' = t"
    using assms(1,3) by (auto simp add: wf_db_def distinct_map inj_on_def)
  show ?thesis
  proof (cases "(p, t_pk t) \<in> set (article_tags d)")
    case True
    then show ?thesis using assms by (auto simp add: tags_add_def set_tag_names)
  next
    case False
    have wf: "wf_db (tags_add d p t)"
      using False assms by (auto simp add: tags_add_def wf_db_def list_all_iff)
    have "set (tag_names (tags_add d p t) p) = insert (t_name t) (set (tag_names d p))"
      using False assms(3) inj by (auto simp add: tags_add_def set_tag_names)
    then show ?thesis using wf False by (simp add: tags_add_def)
  qed
qed

lemma add_each_wf:
  assumes "wf_db d" and "p \<in> set (map a_pk (articles d))"
  shows "\<exists>d'. add_each d p pieces = Inr d' \<and> wf_db d' \<and> articles d' = articles d
           \<and> set (tag_names d' p) = set (tag_names d p) \<union> set (map strip pieces)"
  using assms
proof (induction pieces arbitrary: d)
  case Nil
  then show ?case by simp
next
  case (Cons piece pieces)
  from get_or_create_wf [OF Cons.prems(1), of "strip piece"]
  obtain t d1 where g: "get_or_create d (strip piece) = Inr (t, d1)"
    and tn: "t_name t = strip piece" and tin: "t \<in> set (tags d1)" and wf1: "wf_db d1"
    and ar1: "articles d1 = articles d"
    and tg1: "\<forall>q. set (tag_names d1 q) = set (tag_names d q)"
    by blast
  have p1: "p \<in> set (map a_pk (articles d1))"
    using Cons.prems(2) ar1 by simp
  from tags_add_wf [OF wf1 p1 tin]
  have wf2: "wf_db (tags_add d1 p t)" and ar2: "articles (tags_add d1 p t) = articles d1"
    and tg2: "set (tag_names (tags_add d1 p t) p) = insert (t_name t) (set (tag_names d1 p))"
    by simp_all
  have p2: "p \<in> set (map a_pk (articles (tags_add d1 p t)))"
    using p1 ar2 by simp
  from Cons.IH [OF wf2 p2]
  obtain d' where r: "add_each (tags_add d1 p t) p pieces = Inr d'" and wf': "wf_db d'"
    and ar': "articles d' = articles (tags_add d1 p t)"
    and tg': "set (tag_names d' p) = set (tag_names (tags_add d1 p t) p) \<union> set (map strip pieces)"
    by blast
  have "add_each d p (piece # pieces) = Inr d'"
    using g r by simp
  moreover have "articles d' = articles d"
    using ar' ar2 ar1 by simp
  moreover have "set (tag_names d' p) = set (tag_names d p) \<union> set (map strip (piece # pieces))"
    using tg' tg2 tg1 tn by auto
  ultimately show ?case using wf' by blast
qed

lemma distinct_tag_rows:
  assumes "distinct (map t_pk ts)" and "distinct (map t_name ts)"
  shows "distinct rows \<Longrightarrow>
         distinct (concat (map (\<lambda>(ap, tp). if ap = p
                     then map t_name (filter (\<lambda>t. t_pk t = tp) ts) else []) rows))"
proof (induction rows)
  case Nil
  show ?case by simp
next
  case (Cons r rows)
  obtain ap tp where r: "r = (ap, tp)" by (cases r)
  have d1: "distinct (map t_name (filter (\<lambda>t. t_pk t = tp) ts))"
    using assms(2) by (rule distinct_map_filter)
  have inj: "\<And>t t'. t \<in> set ts \<Longrightarrow> t' \<in> set ts \<Longrightarrow> t_name t = t_name t' \<Longrightarrow> t = t'"
    using assms(2) by (auto simp add: distinct_map inj_on_def)
  have disj: "t_name t \<notin> set (concat (map (\<lambda>(ap, tp). if ap = p
                     then map t_name (filter (\<lambda>t. t_pk t = tp) ts) else []) rows))"
    if "ap = p" and "t \<in> set ts" and "t_pk t = tp" for t
  proof
    assume "t_name t \<in> set (concat (map (\<lambda>(ap, tp). if ap = p
                     then map t_name (filter (\<lambda>t. t_pk t = tp) ts) else []) rows))"
    then obtain t' where "t' \<in> set ts" and "(p, t_pk t') \<in> set rows" and "t_name t' = t_name t"
      by (auto split: if_splits)
    then have "(p, t_pk t) \<in> set rows" using inj that(2) by metis
    then show False using Cons.prems r that by simp
  qed
  show ?case
    using Cons d1 disj by (auto simp add: r)
qed

lemma distinct_tag_names: "wf_db d \<Longrightarrow> distinct (tag_names d p)"
  unfolding tag_names_def by (rule distinct_tag_rows) (simp_all add: wf_db_def)

lemma save_new_wf:
  assumes "wf_db d" and "save_new d now form = (a, d1)"
  shows "wf_db d1 \<and> a_pk a \<in> set (map a_pk (articles d1)) \<and> set (tag_names d1 (a_pk a)) = {}"
proof -
  let ?p = "fresh_pk (map a_pk (articles d))"
  have a: "a_pk a = ?p" and d1: "d1 = d\<lparr>articles := articles d @ [a]\<rparr>"
    using assms(2) by (auto simp add: save_new_def Let_def)
  have fr: "?p \<notin> set (map a_pk (articles d))"
    by (rule fresh_pk_new)
  have rows: "\<And>q tp. (q, tp) \<in> set (article_tags d) \<Longrightarrow> q \<in> set (map a_pk (articles d))"
    using assms(1) by (auto simp add: wf_db_def list_all_iff)
  have "wf_db d1"
    using assms(1) fr by (auto simp add: d1 a wf_db_def list_all_iff)
  moreover have "set (tag_names d1 (a_pk a)) = {}"
    using fr rows by (auto simp add: set_tag_names d1 a)
  ultimately show ?thesis by (simp add: d1)
qed

lemma tags_clear_wf:
  assumes "wf_db d"
  shows "wf_db (tags_clear d p) \<and> articles (tags_clear d p) = articles d
         \<and> set (tag_names (tags_clear d p) p) = {}"
  using assms by (auto simp add: tags_clear_def wf_db_def list_all_iff set_tag_names)

lemma get_object_or_404_found:
  assumes "get_object_or_404 d p = Inr a"
  shows "a \<in> set (articles d) \<and> a_pk a = p"
proof -
  have "filter (\<lambda>a. a_pk a = p) (articles d) = [a]"
    using assms by (auto simp add: get_object_or_404_def split: list.splits)
  then have "a \<in> set (filter (\<lambda>a. a_pk a = p) (articles d))" by simp
  then show ?thesis by simp
qed

lemma save_instance_wf:
  assumes "wf_db d" and "old \<in> set (articles d)" and "save_instance d now form old = (a, d2)"
  shows "wf_db d2 \<and> a_pk a = a_pk old \<and> a_pk a \<in> set (map a_pk (articles d2))
         \<and> tag_names d2 = tag_names d"
proof -
  have a: "a = old\<lparr>a_title := f_title form, a_text := f_text form, a_author := f_author form,
                   a_updated_at := now\<rparr>"
    and d2: "d2 = d\<lparr>articles := map (\<lambda>x. if a_pk x = a_pk old then a else x) (articles d)\<rparr>"
    using assms(3) by (auto simp add: save_instance_def Let_def)
  have pk: "a_pk a = a_pk old" by (simp add: a)
  have pks: "map a_pk (articles d2) = map a_pk (articles d)"
    by (simp add: d2 pk comp_def cong: map_cong)
  have "wf_db d2"
    using assms(1) pks by (simp add: wf_db_def) (simp add: d2)
  moreover have "tags d2 = tags d" and "article_tags d2 = article_tags d"
    by (simp_all add: d2)
  then have "tag_names d2 = tag_names d"
    by (simp add: fun_eq_iff tag_names_def cong: if_cong)
  moreover have "a_pk a \<in> set (map a_pk (articles d2))"
    using assms(2) pk unfolding pks by simp
  ultimately show ?thesis using pk by simp
qed

lemma create_tags:
  assumes "wf_db d"
  shows "\<exists>p d'. ArticleCreateView_form_valid d now form (Some tags_str) = Inr (p, d')
           \<and> wf_db d' \<and> set (tag_names d' p) = set (map strip (split tags_str CHR '',''))
           \<and> distinct (tag_names d' p)"
proof -
  obtain a d1 where s: "save_new d now form = (a, d1)" by (cases "save_new d now form")
  from save_new_wf [OF assms s]
  have wf1: "wf_db d1" and p1: "a_pk a \<in> set (map a_pk (articles d1))"
    and e1: "set (tag_names d1 (a_pk a)) = {}" by simp_all
  from add_each_wf [OF wf1 p1, of "split tags_str CHR '',''"]
  obtain d' where r: "add_each d1 (a_pk a) (split tags_str CHR '','') = Inr d'"
    and wf': "wf_db d'"
    and tg: "set (tag_names d' (a_pk a))
               = set (tag_names d1 (a_pk a)) \<union> set (map strip (split tags_str CHR '',''))"
    by blast
  have "ArticleCreateView_form_valid d now form (Some tags_str) = Inr (a_pk a, d')"
    using s r by (simp add: ArticleCreateView_form_valid_def)
  then show ?thesis
    using wf' tg e1 distinct_tag_names [OF wf'] by auto
qed

lemma update_tags:
  assumes "wf_db d" and "get_object_or_404 d p = Inr article"
  shows "\<exists>d'. ArticleUpdateView_form_valid d now p form (Some tags_str) = Inr (p, d')
           \<and> wf_db d' \<and> set (tag_names d' p) = set (map strip (split tags_str CHR '',''))
           \<and> distinct (tag_names d' p)"
proof -
  from get_object_or_404_found [OF assms(2)]
  have ain: "article \<in> set (articles d)" and apk: "a_pk article = p" by simp_all
  let ?d1 = "tags_clear d p"
  from tags_clear_wf [OF assms(1), of p]
  have wf1: "wf_db ?d1" and ar1: "articles ?d1 = articles d"
    and e1: "set (tag_names ?d1 p) = {}" by simp_all
  obtain a d2 where s: "save_instance ?d1 now form article = (a, d2)"
    by (cases "save_instance ?d1 now form article")
  have ain1: "article \<in> set (articles ?d1)" using ain ar1 by simp
  note w = save_instance_wf [OF wf1 ain1 s]
  have wf2: "wf_db d2" and tn: "tag_names d2 = tag_names ?d1"
    using w by blast+
  have pk: "a_pk a = p"
    using w apk by simp
  have p2: "a_pk a \<in> set (map a_pk (articles d2))"
    using w by blast
  from add_each_wf [OF wf2 p2, of "split tags_str CHR '',''"]
  obtain d' where r: "add_each d2 (a_pk a) (split tags_str CHR '','') = Inr d'"
    and wf': "wf_db d'"
    and tg: "set (tag_names d' (a_pk a))
               = set (tag_names d2 (a_pk a)) \<union> set (map strip (split tags_str CHR '',''))"
    by blast
  have "ArticleUpdateView_form_valid d now p form (Some tags_str) = Inr (p, d')"
    using assms(2) s r pk apk by (simp add: ArticleUpdateView_form_valid_def)
  then show ?thesis
    using wf' tg e1 tn pk distinct_tag_names [OF wf'] by auto
qed



lemma pieces_example: "map strip (split ''a, b ,, b'' CHR '','') = [''a'', ''b'', [], ''b'']"
  by code_simp

lemma pieces_z: "map strip (split ''z'' CHR '','') = [''z'']"
  by code_simp

text \<open>
  C1, as the spec states it, fails. The loop of \<open>ArticleCreateView.form_valid\<close> has no test
  for an empty piece: on the empty store the tag string \<open>a, b ,, b\<close> leaves the new article
  with three tags, \<open>a\<close>, \<open>b\<close> and a tag with the empty name, which is created for the
  empty fragment.
\<close>

theorem create_empty_piece_counterexample:
  "ArticleCreateView_form_valid db_empty 60 form_post (Some ''a, b ,, b'')
     = Inr (1, db_after_create)
   \<and> tag_names db_after_create 1 = [''a'', ''b'', []]
   \<and> set (tag_names db_after_create 1) \<noteq> {''a'', ''b''}
   \<and> [] \<in> set (map t_name (tags db_after_create))"
  by code_simp

text \<open>
  C1, amended. On create, the tag string is split on commas, each piece is stripped, and
  for every piece, the empty ones included, a tag of that name is got or created and
  associated with the new article: on a consistent store the view succeeds and the
  article's tag names are exactly the stripped pieces, each name once. For the tag string
  \<open>a, b ,, b\<close> these are the three names \<open>a\<close>, \<open>b\<close> and the empty name.
\<close>

theorem create_associates_every_piece:
  assumes "wf_db d"
  shows "\<exists>p d'. ArticleCreateView_form_valid d now form (Some tags_str) = Inr (p, d')
           \<and> set (tag_names d' p) = set (map strip (split tags_str CHR '',''))
           \<and> distinct (tag_names d' p)
           \<and> (tags_str = ''a, b ,, b'' \<longrightarrow> set (tag_names d' p) = {''a'', ''b'', []})"
proof -
  from create_tags [OF assms, of now form tags_str]
  obtain p d' where r: "ArticleCreateView_form_valid d now form (Some tags_str) = Inr (p, d')"
    and tg: "set (tag_names d' p) = set (map strip (split tags_str CHR '',''))"
    and di: "distinct (tag_names d' p)"
    by blast
  have "set (tag_names d' p) = {''a'', ''b'', []}" if "tags_str = ''a, b ,, b''"
    using tg that pieces_example by auto
  then show ?thesis using r tg di by blast
qed

theorem create_associates_every_piece_witness:
  "wf_db db_blog
   \<and> (\<exists>p d'. ArticleCreateView_form_valid db_blog 60 form_post (Some ''a, b ,, b'') = Inr (p, d')
         \<and> set (tag_names d' p) = {''a'', ''b'', []})"
proof -
  have wf: "wf_db db_blog"
    by code_simp
  show ?thesis
    using create_associates_every_piece [OF wf, of 60 form_post "''a, b ,, b''"] wf by auto
qed

text \<open>
  C8. On update the old tag rows of the article are cleared before the pieces of the new
  tag string are added: on a consistent store, for an existing article, the view succeeds
  and the article's tag names afterwards are exactly the stripped pieces of the new
  string, whatever they were before. In particular an article with the tags \<open>x\<close> and \<open>y\<close>
  has exactly the tag \<open>z\<close> after an update with the tag string \<open>z\<close>.
\<close>

theorem update_replaces_tags:
  assumes "wf_db d" and "get_object_or_404 d p = Inr article"
  shows "(\<exists>d'. ArticleUpdateView_form_valid d now p form (Some tags_str) = Inr (p, d')
            \<and> set (tag_names d' p) = set (map strip (split tags_str CHR '','')))
         \<and> (set (tag_names d p) = {''x'', ''y''} \<longrightarrow>
              (\<exists>d'. ArticleUpdateView_form_valid d now p form (Some ''z'') = Inr (p, d')
                 \<and> set (tag_names d' p) = {''z''}))"
proof -
  have "\<exists>d'. ArticleUpdateView_form_valid d now p form (Some tags_str) = Inr (p, d')
            \<and> set (tag_names d' p) = set (map strip (split tags_str CHR '',''))" for tags_str
    using update_tags [OF assms, of now form tags_str] by blast
  from this [of tags_str] this [of "''z''"] show ?thesis
    by (simp add: pieces_z)
qed

theorem update_replaces_tags_witness:
  "wf_db db_xy \<and> get_object_or_404 db_xy 1 = Inr a1 \<and> set (tag_names db_xy 1) = {''x'', ''y''}
   \<and> (\<exists>d'. ArticleUpdateView_form_valid db_xy 60 1 form_post (Some ''z'') = Inr (1, d')
         \<and> set (tag_names d' 1) = {''z''})"
proof -
  have wf: "wf_db db_xy"
    by code_simp
  have g: "get_object_or_404 db_xy 1 = Inr a1"
    by code_simp
  have "tag_names db_xy 1 = [''x'', ''y'']"
    by code_simp
  then have xy: "set (tag_names db_xy 1) = {''x'', ''y''}"
    by simp
  show ?thesis
    using update_replaces_tags [OF wf g, of 60 form_post "''z''"] wf g xy by simp
qed

section \<open>The filters of the list view\<close>

text \<open>
  C2, as the spec states it, fails. \<open>get_queryset\<close> tests the search query and the tag query
  with two separate \<open>if\<close> statements, the second working on the result of the first. A
  request with both parameters gets both filters: below, the search alone selects the
  first two articles, the tag alone the first and the third, and the request with both
  selects the first article only.
\<close>

theorem index_filters_counterexample:
  "IndexView_get_queryset db_three request_both = Inr [b1]
   \<and> IndexView_get_queryset db_three request_search = Inr [b1, b2]
   \<and> IndexView_get_queryset db_three request_tag = Inr [b1, b3]
   \<and> IndexView_get_queryset db_three request_none = Inr [b1, b2, b3]"
  by code_simp

lemma case_option_ex:
  "(case t of None \<Rightarrow> False | Some x \<Rightarrow> P x) = (\<exists>x. t = Some x \<and> P x)"
  by (cases t) simp_all

lemma set_ordered: "set (ordered d) = set (articles d)"
  by (simp add: ordered_def)

lemma set_search_filter:
  "set (filter_q d (Q_or (Q_or (Q_leaf (title__icontains s)) (Q_leaf (author__icontains s)))
                        (Q_leaf (tags__name__iexact s))) queryset) =
     {a \<in> set queryset. icontains (a_title a) s \<or> icontains (a_author a) s
        \<or> (\<exists>tg \<in> set (tags_of d a). iexact (t_name tg) s)}"
  by (simp add: set_filter_q join_tags_def join_comments_def case_option_ex bex_disj_distrib
        bex_outer_const bex_outer_Some ex_outer)

lemma set_tag_filter:
  "set (filter_q d (Q_leaf (tags__name__iexact s)) queryset) =
     {a \<in> set queryset. \<exists>tg \<in> set (tags_of d a). iexact (t_name tg) s}"
  by (simp add: set_filter_q join_tags_def join_comments_def case_option_ex bex_outer_Some)

text \<open>
  C2, amended. In the list view each of the two narrowing filters is applied exactly when
  its own parameter is given (the form valid, the value not empty), whether or not the
  other is given; when the tag lookup succeeds, the queryset holds exactly the articles
  that pass every filter whose parameter is given, so a request with both parameters is
  narrowed by the search filter and by the tag filter together.
\<close>

theorem index_filters_compose:
  assumes "get_search_query r = Some search"
    and "truthy (GET_tag r) \<longrightarrow> (\<exists>s. GET_tag r = Some s \<and> Tag_objects_get d s = Inr t)"
  shows "\<exists>queryset. IndexView_get_queryset d r = Inr queryset
           \<and> set queryset =
               {a \<in> set (articles d).
                  (search \<noteq> [] \<longrightarrow>
                     icontains (a_title a) search \<or> icontains (a_author a) search
                     \<or> (\<exists>tg \<in> set (tags_of d a). iexact (t_name tg) search))
                  \<and> (truthy (GET_tag r) \<longrightarrow>
                       (\<exists>tg \<in> set (tags_of d a). iexact (t_name tg) (t_name t)))}"
proof -
  let ?searched =
    "if search \<noteq> []
     then filter_q d (Q_or (Q_or (Q_leaf (title__icontains search))
                                 (Q_leaf (author__icontains search)))
                           (Q_leaf (tags__name__iexact search))) (ordered d)
     else ordered d"
  have tq: "get_tag_query r = GET_tag r"
    using assms(1) by (simp add: get_tag_query_def form_is_valid_def)
  have s1: "set ?searched =
              {a \<in> set (articles d).
                 search \<noteq> [] \<longrightarrow>
                   icontains (a_title a) search \<or> icontains (a_author a) search
                   \<or> (\<exists>tg \<in> set (tags_of d a). iexact (t_name tg) search)}"
    by (simp add: set_search_filter set_ordered)
  show ?thesis
  proof (cases "truthy (GET_tag r)")
    case True
    then obtain s where s: "GET_tag r = Some s" and g: "Tag_objects_get d s = Inr t"
      using assms(2) by blast
    have ne: "s \<noteq> []" using True s by simp
    have "IndexView_get_queryset d r
            = Inr (filter_q d (Q_leaf (tags__name__iexact (t_name t))) ?searched)"
      using ne by (simp add: IndexView_get_queryset_def Let_def assms(1) tq s g tag_str_def)
    moreover have "set (filter_q d (Q_leaf (tags__name__iexact (t_name t))) ?searched) =
                     {a \<in> set ?searched. \<exists>tg \<in> set (tags_of d a). iexact (t_name tg) (t_name t)}"
      by (rule set_tag_filter)
    ultimately show ?thesis
      using True s1 by auto
  next
    case False
    then have "GET_tag r = None \<or> GET_tag r = Some []"
      by (cases "GET_tag r") simp_all
    then have "IndexView_get_queryset d r = Inr ?searched"
      by (auto simp add: IndexView_get_queryset_def Let_def assms(1) tq)
    then show ?thesis
      using False s1 by auto
  qed
qed

theorem index_filters_compose_witness:
  "get_search_query request_both = Some ''foo''
   \<and> truthy (GET_tag request_both) \<and> GET_tag request_both = Some ''1''
   \<and> Tag_objects_get db_three ''1'' = Inr \<lparr>t_pk = 1, t_name = ''x''\<rparr>
   \<and> (\<exists>queryset. IndexView_get_queryset db_three request_both = Inr queryset
         \<and> set queryset =
             {a \<in> set (articles db_three).
                (icontains (a_title a) ''foo'' \<or> icontains (a_author a) ''foo''
                 \<or> (\<exists>tg \<in> set (tags_of db_three a). iexact (t_name tg) ''foo''))
                \<and> (\<exists>tg \<in> set (tags_of db_three a). iexact (t_name tg) ''x'')})"
proof -
  have s: "get_search_query request_both = Some ''foo''"
    by code_simp
  have t: "GET_tag request_both = Some ''1''"
    by (simp add: request_both_def)
  have g: "Tag_objects_get db_three ''1'' = Inr \<lparr>t_pk = 1, t_name = ''x''\<rparr>"
    by code_simp
  show ?thesis
    using index_filters_compose [of request_both "''foo''" db_three "\<lparr>t_pk = 1, t_name = ''x''\<rparr>"]
      s t g by simp
qed

text \<open>
  C10, as it is stated, fails. The tag of the request need not be a number: for \<open>tag=abc\<close>
  the conversion of the primary key raises \<open>ValueError\<close> before any record is looked for,
  so the uncaught error is not a does-not-exist error.
\<close>

theorem missing_tag_counterexample:
  "get_tag_query request_word_tag = Some ''abc''
   \<and> map t_pk (tags db_three) = [1, 2]
   \<and> IndexView_get db_three request_word_tag = Inl ValueError
   \<and> IndexView_get db_three request_word_tag \<noteq> Inl DoesNotExist"
  by code_simp

text \<open>
  C10, amended. When the tag query of the list view is set (the search form valid, the
  \<open>tag\<close> parameter not empty) and does not name the primary key of any tag, the lookup
  raises an error that nothing catches: \<open>DoesNotExist\<close> when the value reads as an integer
  in the range of the key, \<open>ValueError\<close> when it does not read as an integer, and
  \<open>OverflowError\<close> when the integer is outside the range of the key. \<open>get_queryset\<close> and
  with it the whole view end in that error, never in the 404 that a missing page or a
  missing article gives.
\<close>

theorem missing_tag_unhandled:
  assumes "get_tag_query r = Some s" and "s \<noteq> []"
    and "\<forall>t \<in> set (tags d). py_int s \<noteq> Some (int (t_pk t))"
  shows "IndexView_get_queryset d r =
           Inl (case py_int s of
                  None \<Rightarrow> ValueError
                | Some k \<Rightarrow> if in_key_range k then DoesNotExist else OverflowError)
         \<and> IndexView_get d r =
             Inl (case py_int s of
                    None \<Rightarrow> ValueError
                  | Some k \<Rightarrow> if in_key_range k then DoesNotExist else OverflowError)
         \<and> IndexView_get d r \<noteq> Inl Http404"
proof -
  have g: "Tag_objects_get d s =
             Inl (case py_int s of
                    None \<Rightarrow> ValueError
                  | Some k \<Rightarrow> if in_key_range k then DoesNotExist else OverflowError)"
  proof (cases "py_int s")
    case None
    then show ?thesis by (simp add: Tag_objects_get_def)
  next
    case (Some k)
    have "filter (\<lambda>t. int (t_pk t) = k) (tags d) = []"
      using assms(3) Some by (auto simp add: filter_empty_conv)
    then show ?thesis
      using Some by (simp add: Tag_objects_get_def)
  qed
  have q: "IndexView_get_queryset d r =
             Inl (case py_int s of
                    None \<Rightarrow> ValueError
                  | Some k \<Rightarrow> if in_key_range k then DoesNotExist else OverflowError)"
    using assms(1,2) g by (simp add: IndexView_get_queryset_def Let_def)
  show ?thesis
    unfolding IndexView_get_def q by (simp split: option.splits)
qed

theorem missing_tag_unhandled_witness:
  "get_tag_query request_missing_tag = Some ''99'' \<and> py_int ''99'' = Some 99
   \<and> get_tag_query request_word_tag = Some ''abc'' \<and> py_int ''abc'' = None
   \<and> get_tag_query request_huge_tag = Some ''9223372036854775808''
   \<and> py_int ''9223372036854775808'' = Some (2 ^ 63)
   \<and> map t_pk (tags db_three) = [1, 2]
   \<and> IndexView_get db_three request_missing_tag = Inl DoesNotExist
   \<and> IndexView_get db_three request_word_tag = Inl ValueError
   \<and> IndexView_get db_three request_huge_tag = Inl OverflowError"
proof -
  have q: "get_tag_query request_missing_tag = Some ''99''"
    "get_tag_query request_word_tag = Some ''abc''"
    "get_tag_query request_huge_tag = Some ''9223372036854775808''"
    by code_simp+
  have i: "py_int ''99'' = Some 99" "py_int ''abc'' = None"
    "py_int ''9223372036854775808'' = Some (2 ^ 63)"
    by (simp_all add: py_int_def int_space_def isdigit_def)
  have r: "in_key_range 99" "\<not> in_key_range (2 ^ 63)"
    by (simp_all add: in_key_range_def)
  have pks: "map t_pk (tags db_three) = [1, 2]"
    by (simp add: db_three_def)
  have n: "\<forall>t \<in> set (tags db_three). py_int ''99'' \<noteq> Some (int (t_pk t))"
    "\<forall>t \<in> set (tags db_three). py_int ''abc'' \<noteq> Some (int (t_pk t))"
    "\<forall>t \<in> set (tags db_three). py_int ''9223372036854775808'' \<noteq> Some (int (t_pk t))"
    unfolding i by (simp_all add: db_three_def)
  show ?thesis
    using missing_tag_unhandled [OF q(1) _ n(1)] missing_tag_unhandled [OF q(2) _ n(2)]
      missing_tag_unhandled [OF q(3) _ n(3)] q i r pks
    by simp
qed

section \<open>Ordering and pages of the list view\<close>












end
